theory Spec2Isabelle
  imports Main "HOL-Library.Sublist"
begin

section \<open>Errors\<close>

text \<open>
  The notebook raises nothing itself; what can fail is a lookup. A column label that a
  frame does not have and a dictionary key that is absent raise \<open>KeyError\<close>, the first
  element of an empty list raises \<open>IndexError\<close>. A computation returns \<open>Inl\<close> of the
  error or \<open>Inr\<close> of its value, and \<open>and_then\<close> stops at the first error.
\<close>

datatype error = KeyError | IndexError

definition and_then :: "error + 'a \<Rightarrow> ('a \<Rightarrow> error + 'b) \<Rightarrow> error + 'b" where
  "and_then m f = (case m of Inl e \<Rightarrow> Inl e | Inr x \<Rightarrow> f x)"

section \<open>Data frames\<close>

text \<open>
  Both tables are pandas frames with a \<open>WELL\<close> column. A row of \<open>locations_df\<close> carries
  the partition tag \<open>Dataset\<close> and one boolean per curve column (\<open>flag\<close>); its other
  metadata columns (coordinates, operator, ...) are never read by the functions below and
  live in the record's extension. A row of \<open>well_data_df\<close> is one depth sample: \<open>cell\<close>
  gives the reading of each curve column, \<open>None\<close> standing for pandas' missing value.
  A frame lists its curve column labels in \<open>columns\<close>, so that the label lookup can fail,
  and its rows in index order.
\<close>

record well_row =
  WELL :: string

record loc_row = well_row +
  Dataset :: string
  flag :: "string \<Rightarrow> bool"

record 'v data_row = well_row +
  cell :: "string \<Rightarrow> 'v option"

record 'r frame =
  columns :: "string list"
  rows :: "'r list"

section \<open>Curve availability\<close>

text \<open>\<open>data_df.loc[data_df['WELL']==well_name, curve]\<close>: the curve column of the rows of one well.\<close>

definition loc_well :: "'v data_row frame \<Rightarrow> string \<Rightarrow> string \<Rightarrow> error + 'v option list" where
  "loc_well data_df well_name curve =
     (if curve \<in> set (columns data_df)
      then Inr (map (\<lambda>r. cell r curve) (filter (\<lambda>r. WELL r = well_name) (rows data_df)))
      else Inl KeyError)"

definition isnull :: "'v option list \<Rightarrow> bool list" where
  "isnull s = map (\<lambda>v. case v of None \<Rightarrow> True | Some _ \<Rightarrow> False) s"

text \<open>\<open>Series.all()\<close>: true on the empty series.\<close>

definition series_all :: "bool list \<Rightarrow> bool" where
  "series_all s = foldr (\<and>) s True"

definition well_has_curve :: "'z well_row_scheme \<Rightarrow> 'v data_row frame \<Rightarrow> string \<Rightarrow> error + bool" where
  "well_has_curve row data_df curve =
     (let well_name = WELL row
      in and_then (loc_well data_df well_name curve) (\<lambda>s. Inr (\<not> series_all (isnull s))))"

text \<open>\<open>df.apply(f, axis=1)\<close>: the function on each row in turn, stopping at the first error.\<close>

fun apply_axis1 :: "('r \<Rightarrow> error + 'b) \<Rightarrow> 'r list \<Rightarrow> error + 'b list" where
  "apply_axis1 f [] = Inr []"
| "apply_axis1 f (r # rs) =
     and_then (f r) (\<lambda>v. and_then (apply_axis1 f rs) (\<lambda>vs. Inr (v # vs)))"

text \<open>\<open>locations_df[curve] = series\<close>: the column is overwritten, or appended when new.\<close>

definition setitem :: "'z loc_row_scheme frame \<Rightarrow> string \<Rightarrow> bool list \<Rightarrow> 'z loc_row_scheme frame" where
  "setitem df curve vs =
     df\<lparr>columns := (if curve \<in> set (columns df) then columns df else columns df @ [curve]),
        rows := map (\<lambda>(r, v). r\<lparr>flag := (flag r)(curve := v)\<rparr>) (zip (rows df) vs)\<rparr>"

text \<open>
  The loop of the notebook,
  \<^verbatim>\<open>for curve in curves: locations_df[curve] = locations_df.apply(lambda row: well_has_curve(row, well_data_df, curve), axis=1)\<close>,
  with the frame it mutates passed in and returned.
\<close>

fun add_curve_columns ::
  "'z loc_row_scheme frame \<Rightarrow> 'v data_row frame \<Rightarrow> string list \<Rightarrow> error + 'z loc_row_scheme frame" where
  "add_curve_columns locations_df well_data_df [] = Inr locations_df"
| "add_curve_columns locations_df well_data_df (curve # curves) =
     and_then (apply_axis1 (\<lambda>row. well_has_curve row well_data_df curve) (rows locations_df))
       (\<lambda>vs. add_curve_columns (setitem locations_df curve vs) well_data_df curves)"

section \<open>The selection callback\<close>

text \<open>
  The \<open>selectedData\<close> property of the map: absent (\<open>None\<close>) or a dictionary whose \<open>points\<close>
  entry lists the selected points. A point is a dictionary; its \<open>customdata\<close> entry, when
  the trace has one, is a list whose first element is the well name. The other entries of
  both dictionaries are never read.
\<close>

record point =
  customdata :: "string list option"

record selected_data =
  points :: "point list"

text \<open>\<open>locations_df[curves]\<close> followed by \<open>.values\<close>: one list of booleans per row.\<close>

definition getitem_columns :: "'z loc_row_scheme frame \<Rightarrow> string list \<Rightarrow> error + bool list list" where
  "getitem_columns df cs =
     (if list_all (\<lambda>c. c \<in> set (columns df)) cs
      then Inr (map (\<lambda>r. map (flag r) cs) (rows df))
      else Inl KeyError)"

text \<open>\<open>.all(axis=1)\<close>: the conjunction along each row, true for a row of no columns.\<close>

definition all_axis1 :: "bool list list \<Rightarrow> bool list" where
  "all_axis1 m = map (\<lambda>r. foldr (\<and>) r True) m"

text \<open>\<open>df[mask]\<close>: the rows at which the mask is true, in order.\<close>

definition getitem_mask :: "'r frame \<Rightarrow> bool list \<Rightarrow> 'r frame" where
  "getitem_mask df bools = df\<lparr>rows := map fst (filter snd (zip (rows df) bools))\<rparr>"

definition isin :: "string list \<Rightarrow> string list \<Rightarrow> bool list" where
  "isin s vals = map (\<lambda>x. x \<in> set vals) s"

text \<open>\<open>p['customdata'][0]\<close>\<close>

definition point_well :: "point \<Rightarrow> error + string" where
  "point_well p =
     (case customdata p of
        None \<Rightarrow> Inl KeyError
      | Some [] \<Rightarrow> Inl IndexError
      | Some (w # _) \<Rightarrow> Inr w)"

text \<open>\<open>[p['customdata'][0] for p in selected_item['points']]\<close>\<close>

fun point_wells :: "point list \<Rightarrow> error + string list" where
  "point_wells [] = Inr []"
| "point_wells (p # ps) =
     and_then (point_well p) (\<lambda>w. and_then (point_wells ps) (\<lambda>ws. Inr (w # ws)))"

text \<open>
  The value of \<open>lasso_wells\<close> after the loop over \<open>[selected_items]\<close>, which runs once:
  it stays \<open>None\<close> unless the dictionary is there and its list of points is not empty.
\<close>

definition lasso_wells_of ::
  "selected_data option \<Rightarrow> error + string list option" where
  "lasso_wells_of selected_items =
     (case selected_items of
        None \<Rightarrow> Inr None
      | Some selected_item \<Rightarrow>
          if points selected_item \<noteq> []
          then and_then (point_wells (points selected_item)) (\<lambda>ws. Inr (Some ws))
          else Inr None)"

text \<open>
  The body of \<open>update_output\<close> up to the last assignment of \<open>dff\<close>. The frame
  \<open>locations_df\<close>, a global of the notebook, is the first argument.
\<close>

definition update_output_dff ::
  "'z loc_row_scheme frame \<Rightarrow> string list \<Rightarrow> string list \<Rightarrow>
   selected_data option \<Rightarrow> error + 'z loc_row_scheme frame" where
  "update_output_dff locations_df curves datasets selected_items =
     and_then (getitem_columns locations_df curves) (\<lambda>vals.
       let curve_mask = all_axis1 vals;
           dff = getitem_mask locations_df curve_mask;
           dff' = getitem_mask dff (isin (map Dataset (rows dff)) datasets);
           all_wells = map WELL (rows dff')
       in and_then (lasso_wells_of selected_items) (\<lambda>lasso_wells.
            let select_mask =
                  isin (map WELL (rows dff'))
                    (case lasso_wells of
                       None \<Rightarrow> all_wells
                     | Some ws \<Rightarrow> if ws \<noteq> [] then ws else all_wells)
            in Inr (getitem_mask dff' select_mask)))"

text \<open>\<open>well_names = dff['WELL'].values\<close> of the final frame.\<close>

definition well_names_of ::
  "'z loc_row_scheme frame \<Rightarrow> string list \<Rightarrow> string list \<Rightarrow>
   selected_data option \<Rightarrow> error + string list" where
  "well_names_of locations_df curves datasets selected_items =
     and_then (update_output_dff locations_df curves datasets selected_items)
       (\<lambda>dff. Inr (map WELL (rows dff)))"

subsection \<open>Rendering\<close>

definition newline :: char where
  "newline = CHR 0x0A"

definition quote :: char where
  "quote = CHR 0x27"

text \<open>Python's decimal rendering of a natural number, as \<open>"{}".format(num_wells)\<close> gives it.\<close>

fun str_nat :: "nat \<Rightarrow> string" where
  "str_nat n =
     (if n < 10 then [''0123456789'' ! n]
      else str_nat (n div 10) @ [''0123456789'' ! (n mod 10)])"

declare str_nat.simps [simp del]

text \<open>\<open>sep.join(xs)\<close>\<close>

fun join :: "string \<Rightarrow> string list \<Rightarrow> string" where
  "join sep [] = []"
| "join sep [x] = x"
| "join sep (x # y # ys) = x @ sep @ join sep (y # ys)"

definition format_quoted :: "string \<Rightarrow> string" where
  "format_quoted well_name = [quote] @ well_name @ [quote]"

definition update_output ::
  "'z loc_row_scheme frame \<Rightarrow> string list \<Rightarrow> string list \<Rightarrow>
   selected_data option \<Rightarrow> error + string" where
  "update_output locations_df curves datasets selected_items =
     and_then (update_output_dff locations_df curves datasets selected_items) (\<lambda>dff.
       let num_wells = length (rows dff);
           well_names = map WELL (rows dff);
           output_text = [newline] @ ''You have selected '' @ str_nat num_wells
                           @ '' wells.'' @ [newline, newline];
           well_list_text = join '', '' (map format_quoted well_names);
           well_list_text' = ''selected_wells = ['' @ well_list_text @ '']''
       in Inr (output_text @ well_list_text'))"

subsection \<open>Reading the rendered text\<close>

text \<open>
  What a reader of the returned text sees. These functions are not part of the notebook;
  they are used to state that the count on the first line and the list on the last line
  agree. \<open>reported_count\<close> reads the decimal number that follows the opening words,
  \<open>last_line\<close> is the text after the last line break, and \<open>quoted_count\<close> counts
  the quoted items of a line as half the number of its quote characters.
\<close>

definition is_digit :: "char \<Rightarrow> bool" where
  "is_digit c = (c \<in> set ''0123456789'')"

definition digit_val :: "char \<Rightarrow> nat" where
  "digit_val c = of_char c - 48"

definition reported_count :: "string \<Rightarrow> nat" where
  "reported_count text =
     foldl (\<lambda>a c. 10 * a + digit_val c) 0
       (takeWhile is_digit (drop (length ([newline] @ ''You have selected '')) text))"

definition last_line :: "string \<Rightarrow> string" where
  "last_line text = rev (takeWhile (\<lambda>c. c \<noteq> newline) (rev text))"

definition quoted_count :: "string \<Rightarrow> nat" where
  "quoted_count line = count_list line quote div 2"

section \<open>Example tables\<close>

text \<open>
  A metadata table of three wells before the curve columns are added, and a sample table
  in which well \<open>A\<close> has one gamma-ray reading and no density reading, well \<open>B\<close> has both
  and well \<open>C\<close> has no sample at all.
\<close>

definition sample_locations :: "loc_row frame" where
  "sample_locations =
     \<lparr>columns = [],
      rows = [\<lparr>WELL = ''A'', Dataset = ''Train'', flag = (\<lambda>_. False)\<rparr>,
              \<lparr>WELL = ''B'', Dataset = ''Test'', flag = (\<lambda>_. False)\<rparr>,
              \<lparr>WELL = ''C'', Dataset = ''Test'', flag = (\<lambda>_. False)\<rparr>]\<rparr>"

definition sample_well_data :: "nat data_row frame" where
  "sample_well_data =
     \<lparr>columns = [''GR'', ''RHOB''],
      rows = [\<lparr>WELL = ''A'', cell = (\<lambda>_. None)\<rparr>,
              \<lparr>WELL = ''A'', cell = (\<lambda>_. None)(''GR'' := Some 80)\<rparr>,
              \<lparr>WELL = ''B'', cell = (\<lambda>_. None)(''GR'' := Some 75, ''RHOB'' := Some 2)\<rparr>]\<rparr>"

text \<open>The two-well availability table of section 8 of the specification.\<close>

definition example_locations :: "loc_row frame" where
  "example_locations =
     \<lparr>columns = [''GR'', ''RHOB''],
      rows = [\<lparr>WELL = ''A'', Dataset = ''Train'', flag = (\<lambda>_. False)(''GR'' := True)\<rparr>,
              \<lparr>WELL = ''B'', Dataset = ''Test'',
                 flag = (\<lambda>_. False)(''GR'' := True, ''RHOB'' := True)\<rparr>]\<rparr>"

text \<open>A table of twelve training wells that all have a gamma-ray curve.\<close>

definition twelve_wells :: "loc_row frame" where
  "twelve_wells =
     \<lparr>columns = [''GR''],
      rows = map (\<lambda>w. \<lparr>WELL = w, Dataset = ''Train'', flag = (\<lambda>_. True)\<rparr>)
               [''15/9-13'', ''15/9-15'', ''15/9-17'', ''16/1-2'', ''16/1-6 A'', ''16/10-1'',
                ''16/10-2'', ''16/10-3'', ''16/10-5'', ''16/11-1 ST3'', ''16/2-11 A'', ''16/2-16'']\<rparr>"

section \<open>Properties of the frame operations\<close>

lemma foldr_conj_True: "foldr (\<and>) bs True = (\<forall>b\<in>set bs. b)"
  by (induction bs) auto

lemma and_then_Inr [simp]: "and_then (Inr x) f = f x"
  by (simp add: and_then_def)

lemma and_then_Inl [simp]: "and_then (Inl e) f = Inl e"
  by (simp add: and_then_def)

lemma filter_zip_map: "map fst (filter snd (zip xs (map P xs))) = filter P xs"
  by (induction xs) auto

lemma well_has_curve_eq:
  "curve \<in> set (columns data_df) \<Longrightarrow>
   well_has_curve row data_df curve =
     Inr (\<exists>s\<in>set (rows data_df). WELL s = WELL row \<and> cell s curve \<noteq> None)"
  by (auto simp: well_has_curve_def loc_well_def series_all_def isnull_def foldr_conj_True
           split: option.splits)

lemma apply_axis1_total:
  "(\<And>r. r \<in> set rs \<Longrightarrow> f r = Inr (g r)) \<Longrightarrow> apply_axis1 f rs = Inr (map g rs)"
  by (induction rs) auto

lemma zip_map_self: "map h (zip xs (map g xs)) = map (\<lambda>x. h (x, g x)) xs"
  by (induction xs) auto

lemma add_curve_columns_rows:
  "set curves \<subseteq> set (columns well_data_df) \<Longrightarrow>
   \<exists>df. add_curve_columns (locations_df :: 'z loc_row_scheme frame) well_data_df curves = Inr df
      \<and> set (columns df) = set (columns locations_df) \<union> set curves
      \<and> rows df =
          map (\<lambda>r. r\<lparr>flag := (\<lambda>c. if c \<in> set curves
                 then (\<exists>s\<in>set (rows well_data_df). WELL s = WELL r \<and> cell s c \<noteq> None)
                 else flag r c)\<rparr>) (rows locations_df)"
proof (induction curves arbitrary: locations_df)
  case Nil
  then show ?case by (simp add: map_idI)
next
  case (Cons c cs)
  let ?g = "\<lambda>r::'z loc_row_scheme. (\<exists>s\<in>set (rows well_data_df). WELL s = WELL r \<and> cell s c \<noteq> None)"
  have ap: "apply_axis1 (\<lambda>row. well_has_curve row well_data_df c) (rows locations_df)
              = Inr (map ?g (rows locations_df))"
    using Cons.prems by (intro apply_axis1_total well_has_curve_eq) simp
  from Cons.prems have "set cs \<subseteq> set (columns well_data_df)" by simp
  from Cons.IH [OF this, of "setitem locations_df c (map ?g (rows locations_df))"]
  obtain df where df: "add_curve_columns (setitem locations_df c (map ?g (rows locations_df))) well_data_df cs = Inr df"
    "set (columns df) = set (columns (setitem locations_df c (map ?g (rows locations_df)))) \<union> set cs"
    "rows df = map (\<lambda>r. r\<lparr>flag := (\<lambda>c. if c \<in> set cs
                 then (\<exists>s\<in>set (rows well_data_df). WELL s = WELL r \<and> cell s c \<noteq> None)
                 else flag r c)\<rparr>) (rows (setitem locations_df c (map ?g (rows locations_df))))"
    by blast
  have "add_curve_columns locations_df well_data_df (c # cs) = Inr df"
    using ap df(1) by simp
  moreover have "set (columns df) = set (columns locations_df) \<union> set (c # cs)"
    using df(2) by (auto simp: setitem_def)
  moreover have "rows df = map (\<lambda>r. r\<lparr>flag := (\<lambda>c'. if c' \<in> set (c # cs)
                 then (\<exists>s\<in>set (rows well_data_df). WELL s = WELL r \<and> cell s c' \<noteq> None)
                 else flag r c')\<rparr>) (rows locations_df)"
    unfolding df(3) by (auto simp: setitem_def zip_map_self fun_eq_iff intro!: arg_cong2[where f="flag_update"])
  ultimately show ?case by blast
qed

lemma getitem_mask_map:
  "rows df = rs \<Longrightarrow> getitem_mask df (map P rs) = df\<lparr>rows := filter P rs\<rparr>"
  by (auto simp: getitem_mask_def filter_zip_map)

lemma getitem_columns_ok:
  "set curves \<subseteq> set (columns df) \<Longrightarrow>
   getitem_columns df curves = Inr (map (\<lambda>r. map (flag r) curves) (rows df))"
  by (auto simp: getitem_columns_def list_all_iff)

lemma getitem_columns_error:
  "\<not> set curves \<subseteq> set (columns df) \<Longrightarrow> getitem_columns df curves = Inl KeyError"
  by (auto simp: getitem_columns_def list_all_iff)

lemma all_axis1_flags:
  "all_axis1 (map (\<lambda>r. map (flag r) curves) rs) = map (\<lambda>r. \<forall>c\<in>set curves. flag r c) rs"
  by (simp add: all_axis1_def foldr_conj_True)

lemma isin_map: "isin (map f rs) vals = map (\<lambda>r. f r \<in> set vals) rs"
  by (simp add: isin_def)

lemma update_output_dff_eq:
  assumes "set curves \<subseteq> set (columns locations_df)"
    and "lasso_wells_of selected_items = Inr lasso_wells"
  shows "update_output_dff locations_df curves datasets selected_items =
           Inr (locations_df\<lparr>rows :=
             filter (\<lambda>r. WELL r \<in> set (case lasso_wells of
                         None \<Rightarrow> map WELL (filter (\<lambda>r. (\<forall>c\<in>set curves. flag r c) \<and> Dataset r \<in> set datasets) (rows locations_df))
                       | Some ws \<Rightarrow> if ws \<noteq> [] then ws
                                   else map WELL (filter (\<lambda>r. (\<forall>c\<in>set curves. flag r c) \<and> Dataset r \<in> set datasets) (rows locations_df))))
               (filter (\<lambda>r. (\<forall>c\<in>set curves. flag r c) \<and> Dataset r \<in> set datasets) (rows locations_df))\<rparr>)"
proof -
  have q: "getitem_mask (getitem_mask locations_df
               (all_axis1 (map (\<lambda>r. map (flag r) curves) (rows locations_df))))
             (isin (map Dataset (rows (getitem_mask locations_df
               (all_axis1 (map (\<lambda>r. map (flag r) curves) (rows locations_df)))))) datasets)
           = locations_df\<lparr>rows := filter (\<lambda>r. (\<forall>c\<in>set curves. flag r c) \<and> Dataset r \<in> set datasets)
                 (rows locations_df)\<rparr>"
    by (simp add: all_axis1_flags getitem_mask_map isin_map conj_commute)
  show ?thesis
    unfolding update_output_dff_def getitem_columns_ok [OF assms(1)] and_then_Inr Let_def q assms(2)
    by (cases lasso_wells) (simp_all add: getitem_mask_map isin_map)
qed

lemma lasso_wells_of_None: "lasso_wells_of None = Inr None"
  by (simp add: lasso_wells_of_def)

lemma lasso_wells_of_empty: "points item = [] \<Longrightarrow> lasso_wells_of (Some item) = Inr None"
  by (simp add: lasso_wells_of_def)

lemma point_wells_length: "point_wells ps = Inr ws \<Longrightarrow> length ws = length ps"
  by (induction ps arbitrary: ws) (auto simp: and_then_def split: sum.splits)

lemma lasso_wells_of_points:
  "point_wells (points item) = Inr ws \<Longrightarrow> ws \<noteq> [] \<Longrightarrow> lasso_wells_of (Some item) = Inr (Some ws)"
  by (auto simp: lasso_wells_of_def)

lemma filter_self_names: "filter (\<lambda>r. f r \<in> set (map f rs)) rs = rs"
  by (induction rs) auto

lemma well_names_of_eq:
  assumes "set curves \<subseteq> set (columns locations_df)"
    and "lasso_wells_of selected_items = Inr lasso_wells"
  shows "well_names_of locations_df curves datasets selected_items =
           Inr (case lasso_wells of
                  None \<Rightarrow> map WELL (filter (\<lambda>r. (\<forall>c\<in>set curves. flag r c) \<and> Dataset r \<in> set datasets) (rows locations_df))
                | Some ws \<Rightarrow> filter (\<lambda>w. w \<in> set ws)
                    (map WELL (filter (\<lambda>r. (\<forall>c\<in>set curves. flag r c) \<and> Dataset r \<in> set datasets) (rows locations_df))))"
proof (cases lasso_wells)
  case None
  then show ?thesis
    unfolding well_names_of_def update_output_dff_eq [OF assms]
    by (simp only: option.case filter_self_names and_then_Inr) simp
next
  case (Some ws)
  have ne: "ws \<noteq> []"
    using assms(2) Some
    by (auto simp: lasso_wells_of_def and_then_def dest: point_wells_length
             split: option.splits if_splits sum.splits)
  show ?thesis
    unfolding well_names_of_def update_output_dff_eq [OF assms] Some
    using ne by (simp add: filter_map comp_def)
qed

lemma update_output_text:
  "update_output locations_df curves datasets selected_items =
     and_then (well_names_of locations_df curves datasets selected_items) (\<lambda>names.
       Inr ([newline] @ ''You have selected '' @ str_nat (length names) @ '' wells.''
            @ [newline, newline] @ ''selected_wells = [''
            @ join '', '' (map (\<lambda>w. [quote] @ w @ [quote]) names) @ '']''))"
  by (simp add: update_output_def well_names_of_def and_then_def Let_def format_quoted_def
           comp_def split: sum.splits)

lemma well_names_of_Inr_D:
  assumes "well_names_of locations_df curves datasets selected_items = Inr names"
  shows "set curves \<subseteq> set (columns locations_df)"
    and "\<exists>lasso_wells. lasso_wells_of selected_items = Inr lasso_wells"
proof -
  show c: "set curves \<subseteq> set (columns locations_df)"
  proof (rule ccontr)
    assume "\<not> set curves \<subseteq> set (columns locations_df)"
    then have "well_names_of locations_df curves datasets selected_items = Inl KeyError"
      by (simp add: well_names_of_def update_output_dff_def getitem_columns_error)
    with assms show False by simp
  qed
  show "\<exists>lasso_wells. lasso_wells_of selected_items = Inr lasso_wells"
  proof (cases "lasso_wells_of selected_items")
    case (Inl e)
    then have "well_names_of locations_df curves datasets selected_items = Inl e"
      by (simp add: well_names_of_def update_output_dff_def getitem_columns_ok [OF c] Let_def)
    with assms show ?thesis by simp
  next
    case (Inr lw)
    then show ?thesis by blast
  qed
qed

lemma subseq_filter_mono:
  "(\<And>x. x \<in> set xs \<Longrightarrow> P x \<Longrightarrow> Q x) \<Longrightarrow> subseq (filter P xs) (filter Q xs)"
proof -
  assume h: "\<And>x. x \<in> set xs \<Longrightarrow> P x \<Longrightarrow> Q x"
  have "filter P xs = filter P (filter Q xs)"
    using h by (auto intro: filter_cong)
  then show ?thesis by (metis subseq_filter_left)
qed

text \<open>
  A selection whose first point has no \<open>customdata\<close> entry makes the callback raise
  \<open>KeyError\<close>, whatever the table and the criteria. With an empty partition filter and a
  selection that can be read, it returns the text for zero wells.
\<close>

lemma unreadable_point_raises:
  "update_output locations_df curves datasets (Some \<lparr>points = \<lparr>customdata = None\<rparr> # ps\<rparr>)
     = Inl KeyError"
proof (cases "set curves \<subseteq> set (columns locations_df)")
  case True
  have "lasso_wells_of (Some \<lparr>points = \<lparr>customdata = None\<rparr> # ps\<rparr>) = Inl KeyError"
    by (simp add: lasso_wells_of_def point_well_def)
  then show ?thesis
    by (simp add: update_output_def update_output_dff_def getitem_columns_ok [OF True] Let_def)
next
  case False
  then show ?thesis
    by (simp add: update_output_def update_output_dff_def getitem_columns_error)
qed

lemma empty_partition_filter_readable_selection:
  fixes locations_df :: "'z loc_row_scheme frame"
  assumes "set curves \<subseteq> set (columns locations_df)"
    and "lasso_wells_of selected_items = Inr lasso_wells"
  shows "well_names_of locations_df curves [] selected_items = Inr []
       \<and> update_output locations_df curves [] selected_items =
           Inr ([newline] @ ''You have selected 0 wells.'' @ [newline, newline]
                @ ''selected_wells = []'')"
proof -
  have n: "well_names_of locations_df curves [] selected_items = Inr []"
    using well_names_of_eq [OF assms, of "[]"] by (simp split: option.splits)
  show ?thesis
    by (simp add: update_output_text n str_nat.simps)
qed

section \<open>Properties of the rendering\<close>

lemma join_concat: "join sep (x # xs) = x @ concat (map (\<lambda>y. sep @ y) xs)"
  by (induction xs arbitrary: x) auto

lemma str_nat_nonempty: "str_nat n \<noteq> []"
  by (subst str_nat.simps) simp

lemma digit_nth:
  assumes "k < 10"
  shows "is_digit (''0123456789'' ! k)" and "digit_val (''0123456789'' ! k) = k"
proof -
  from assms have "k \<in> {0, 1, 2, 3, 4, 5, 6, 7, 8, 9}" by auto
  then show "is_digit (''0123456789'' ! k)" and "digit_val (''0123456789'' ! k) = k"
    by (auto simp: is_digit_def digit_val_def)
qed

lemma str_nat_digits: "\<forall>c\<in>set (str_nat n). is_digit c"
proof (induction n rule: str_nat.induct)
  case (1 n)
  show ?case
  proof (cases "n < 10")
    case True
    then show ?thesis by (subst str_nat.simps) (simp add: digit_nth)
  next
    case False
    then show ?thesis using 1 by (subst str_nat.simps) (simp add: digit_nth)
  qed
qed

lemma str_nat_value: "foldl (\<lambda>a c. 10 * a + digit_val c) 0 (str_nat n) = n"
proof (induction n rule: str_nat.induct)
  case (1 n)
  show ?case
  proof (cases "n < 10")
    case True
    then show ?thesis by (subst str_nat.simps) (simp add: digit_nth)
  next
    case False
    then show ?thesis using 1 by (subst str_nat.simps) (simp add: digit_nth)
  qed
qed

lemma count_quote_join:
  "\<forall>w\<in>set names. quote \<notin> set w \<Longrightarrow>
   count_list (join '', '' (map (\<lambda>w. [quote] @ w @ [quote]) names)) quote = 2 * length names"
proof (induction names rule: induct_list012)
  case 1
  then show ?case by simp
next
  case (2 x)
  then show ?case by (simp add: count_list_0_iff)
next
  case (3 x y zs)
  then show ?case by (simp add: count_list_0_iff quote_def)
qed

lemma newline_join:
  "\<forall>w\<in>set names. newline \<notin> set w \<Longrightarrow>
   newline \<notin> set (join '', '' (map (\<lambda>w. [quote] @ w @ [quote]) names))"
proof (induction names rule: induct_list012)
  case 1
  then show ?case by simp
next
  case (2 x)
  then show ?case by (simp add: quote_def newline_def)
next
  case (3 x y zs)
  then show ?case by (simp add: quote_def newline_def)
qed

lemma last_line_append:
  "newline \<notin> set b \<Longrightarrow> last_line (a @ [newline] @ b) = b"
proof -
  assume n: "newline \<notin> set b"
  then have tw: "takeWhile (\<lambda>c. c \<noteq> newline) (rev b) = rev b"
    by simp blast
  show ?thesis
    by (simp add: last_line_def takeWhile_tail tw)
qed

lemma reported_count_header:
  "reported_count ([newline] @ ''You have selected '' @ str_nat n @ '' wells.'' @ rest) = n"
proof -
  have "takeWhile is_digit (str_nat n @ '' wells.'' @ rest) = str_nat n"
    using str_nat_digits [of n] by (simp add: is_digit_def)
  then show ?thesis
    by (simp add: reported_count_def str_nat_value)
qed

lemma str_nat_no_leading_zero: "0 < n \<Longrightarrow> hd (str_nat n) \<noteq> CHR ''0''"
proof (induction n rule: str_nat.induct)
  case (1 n)
  show ?case
  proof (cases "n < 10")
    case True
    with 1(2) have "n \<in> {1, 2, 3, 4, 5, 6, 7, 8, 9}" by auto
    then show ?thesis by (subst str_nat.simps) auto
  next
    case False
    then have "0 < n div 10" by simp
    with 1(1) False have "hd (str_nat (n div 10)) \<noteq> CHR ''0''" by simp
    then show ?thesis
      using False by (subst str_nat.simps) (simp add: str_nat_nonempty)
  qed
qed

section \<open>The example tables evaluated\<close>

lemma str_nat_small: "str_nat 0 = ''0''" "str_nat (Suc 0) = ''1''" "str_nat 2 = ''2''"
  by (simp_all add: str_nat.simps)

lemma example_columns:
  "set [''GR'', ''RHOB''] \<subseteq> set (columns example_locations)"
  "set [''GR''] \<subseteq> set (columns example_locations)"
  by (simp_all add: example_locations_def)

lemma example_names:
  "well_names_of example_locations [''GR'', ''RHOB''] [''Train'', ''Test''] None = Inr [''B'']"
  "well_names_of example_locations [''GR''] [''Train'', ''Test''] None = Inr [''A'', ''B'']"
  using well_names_of_eq [OF example_columns(1) lasso_wells_of_None, of "[''Train'', ''Test'']"]
    well_names_of_eq [OF example_columns(2) lasso_wells_of_None, of "[''Train'', ''Test'']"]
  by (simp_all add: example_locations_def)

lemma str_nat_twelve: "str_nat 12 = ''12''"
  by (simp add: str_nat.simps)

lemma twelve_names:
  "well_names_of twelve_wells [''GR''] [''Train'', ''Test''] None =
     Inr [''15/9-13'', ''15/9-15'', ''15/9-17'', ''16/1-2'', ''16/1-6 A'', ''16/10-1'',
          ''16/10-2'', ''16/10-3'', ''16/10-5'', ''16/11-1 ST3'', ''16/2-11 A'', ''16/2-16'']"
proof -
  have c: "set [''GR''] \<subseteq> set (columns twelve_wells)"
    by (simp add: twelve_wells_def)
  show ?thesis
    using well_names_of_eq [OF c lasso_wells_of_None, of "[''Train'', ''Test'']"]
    by (simp add: twelve_wells_def)
qed

section \<open>Verified properties\<close>

text \<open>
  C1. When every catalog curve is a column of the sample table, the loop succeeds, keeps the
  wells in place, and the boolean it stores for a well and a curve is the value of
  \<open>well_has_curve\<close>: true iff some sample of that well has a reading of that curve that
  is present. It is false when the well has no sample with a reading, in particular when
  the well does not occur in the sample table.
\<close>

theorem well_has_curve_availability:
  fixes locations_df :: "'z loc_row_scheme frame" and well_data_df :: "'v data_row frame"
  assumes "set curves \<subseteq> set (columns well_data_df)"
  shows "\<exists>df. add_curve_columns locations_df well_data_df curves = Inr df
           \<and> map WELL (rows df) = map WELL (rows locations_df)
           \<and> (\<forall>row\<in>set (rows df). \<forall>c\<in>set curves.
                 well_has_curve row well_data_df c = Inr (flag row c)
               \<and> flag row c = (\<exists>s\<in>set (rows well_data_df). WELL s = WELL row \<and> cell s c \<noteq> None)
               \<and> (WELL row \<notin> WELL ` set (rows well_data_df) \<longrightarrow> \<not> flag row c))"
proof -
  from add_curve_columns_rows [OF assms, of locations_df]
  obtain df where df: "add_curve_columns locations_df well_data_df curves = Inr df"
    and rs: "rows df =
          map (\<lambda>r. r\<lparr>flag := (\<lambda>c. if c \<in> set curves
                 then (\<exists>s\<in>set (rows well_data_df). WELL s = WELL r \<and> cell s c \<noteq> None)
                 else flag r c)\<rparr>) (rows locations_df)"
    by blast
  have "map WELL (rows df) = map WELL (rows locations_df)"
    by (simp add: rs comp_def)
  moreover have "\<forall>row\<in>set (rows df). \<forall>c\<in>set curves.
                 well_has_curve row well_data_df c = Inr (flag row c)
               \<and> flag row c = (\<exists>s\<in>set (rows well_data_df). WELL s = WELL row \<and> cell s c \<noteq> None)
               \<and> (WELL row \<notin> WELL ` set (rows well_data_df) \<longrightarrow> \<not> flag row c)"
  proof (intro ballI)
    fix row c
    assume row: "row \<in> set (rows df)" and c: "c \<in> set curves"
    from c assms have col: "c \<in> set (columns well_data_df)" by blast
    from row obtain r where r: "row = r\<lparr>flag := (\<lambda>c. if c \<in> set curves
                 then (\<exists>s\<in>set (rows well_data_df). WELL s = WELL r \<and> cell s c \<noteq> None)
                 else flag r c)\<rparr>"
      unfolding rs by auto
    have fl: "flag row c = (\<exists>s\<in>set (rows well_data_df). WELL s = WELL row \<and> cell s c \<noteq> None)"
      by (simp add: r c)
    show "well_has_curve row well_data_df c = Inr (flag row c)
               \<and> flag row c = (\<exists>s\<in>set (rows well_data_df). WELL s = WELL row \<and> cell s c \<noteq> None)
               \<and> (WELL row \<notin> WELL ` set (rows well_data_df) \<longrightarrow> \<not> flag row c)"
    proof (intro conjI impI)
      show "well_has_curve row well_data_df c = Inr (flag row c)"
        using fl well_has_curve_eq [OF col, of row] by simp
      show "flag row c = (\<exists>s\<in>set (rows well_data_df). WELL s = WELL row \<and> cell s c \<noteq> None)"
        by (rule fl)
      assume "WELL row \<notin> WELL ` set (rows well_data_df)"
      then have "\<not> (\<exists>s\<in>set (rows well_data_df). WELL s = WELL row \<and> cell s c \<noteq> None)"
        by (metis imageI)
      then show "\<not> flag row c" using fl by simp
    qed
  qed
  ultimately show ?thesis using df by blast
qed

theorem well_has_curve_availability_witness:
  "set [''GR'', ''RHOB''] \<subseteq> set (columns sample_well_data)
   \<and> (\<exists>df. add_curve_columns sample_locations sample_well_data [''GR'', ''RHOB''] = Inr df
           \<and> map WELL (rows df) = map WELL (rows sample_locations)
           \<and> (\<forall>row\<in>set (rows df). \<forall>c\<in>set [''GR'', ''RHOB''].
                 well_has_curve row sample_well_data c = Inr (flag row c)
               \<and> flag row c = (\<exists>s\<in>set (rows sample_well_data). WELL s = WELL row \<and> cell s c \<noteq> None)
               \<and> (WELL row \<notin> WELL ` set (rows sample_well_data) \<longrightarrow> \<not> flag row c)))"
proof (rule conjI)
  show h: "set [''GR'', ''RHOB''] \<subseteq> set (columns sample_well_data)"
    by (simp add: sample_well_data_def)
  show "\<exists>df. add_curve_columns sample_locations sample_well_data [''GR'', ''RHOB''] = Inr df
           \<and> map WELL (rows df) = map WELL (rows sample_locations)
           \<and> (\<forall>row\<in>set (rows df). \<forall>c\<in>set [''GR'', ''RHOB''].
                 well_has_curve row sample_well_data c = Inr (flag row c)
               \<and> flag row c = (\<exists>s\<in>set (rows sample_well_data). WELL s = WELL row \<and> cell s c \<noteq> None)
               \<and> (WELL row \<notin> WELL ` set (rows sample_well_data) \<longrightarrow> \<not> flag row c))"
    by (rule well_has_curve_availability [OF h])
qed

text \<open>The availability table that the loop builds from the sample tables.\<close>

lemma sample_availability_table:
  "\<exists>df. add_curve_columns sample_locations sample_well_data [''GR'', ''RHOB''] = Inr df
     \<and> columns df = [''GR'', ''RHOB'']
     \<and> map (\<lambda>r. (WELL r, flag r ''GR'', flag r ''RHOB'')) (rows df)
         = [(''A'', True, False), (''B'', True, True), (''C'', False, False)]"
  by (simp add: sample_locations_def sample_well_data_def well_has_curve_def loc_well_def
        isnull_def series_all_def setitem_def)

text \<open>
  C2. With no curve required every well passes the curve test: without a map selection the
  callback returns exactly the wells whose \<open>Dataset\<close> tag is in the partition filter, in
  table order, and with a map selection it returns those of them that the selection names.
  No well is dropped for a curve it lacks, and the only error left is an unreadable point.
\<close>

theorem empty_required_curves_pass_all:
  fixes locations_df :: "'z loc_row_scheme frame"
  shows "well_names_of locations_df [] datasets None =
           Inr (map WELL (filter (\<lambda>r. Dataset r \<in> set datasets) (rows locations_df)))
       \<and> well_names_of locations_df [] datasets selected_items =
           and_then (lasso_wells_of selected_items) (\<lambda>lasso_wells.
             Inr (case lasso_wells of
                    None \<Rightarrow> map WELL (filter (\<lambda>r. Dataset r \<in> set datasets) (rows locations_df))
                  | Some ws \<Rightarrow> filter (\<lambda>w. w \<in> set ws)
                      (map WELL (filter (\<lambda>r. Dataset r \<in> set datasets) (rows locations_df)))))"
proof
  have c: "set [] \<subseteq> set (columns locations_df)" by simp
  show "well_names_of locations_df [] datasets None =
           Inr (map WELL (filter (\<lambda>r. Dataset r \<in> set datasets) (rows locations_df)))"
    using well_names_of_eq [OF c lasso_wells_of_None, of datasets] by simp
  show "well_names_of locations_df [] datasets selected_items =
           and_then (lasso_wells_of selected_items) (\<lambda>lasso_wells.
             Inr (case lasso_wells of
                    None \<Rightarrow> map WELL (filter (\<lambda>r. Dataset r \<in> set datasets) (rows locations_df))
                  | Some ws \<Rightarrow> filter (\<lambda>w. w \<in> set ws)
                      (map WELL (filter (\<lambda>r. Dataset r \<in> set datasets) (rows locations_df)))))"
  proof (cases "lasso_wells_of selected_items")
    case (Inl e)
    then show ?thesis
      by (simp add: well_names_of_def update_output_dff_def getitem_columns_ok [OF c] Let_def)
  next
    case (Inr lw)
    show ?thesis
      using well_names_of_eq [OF c Inr, of datasets] by (cases lw) (simp_all add: Inr)
  qed
qed

theorem empty_required_curves_pass_all_witness:
  "well_names_of example_locations [] [''Train'', ''Test''] None = Inr [''A'', ''B'']"
proof -
  from empty_required_curves_pass_all [of example_locations "[''Train'', ''Test'']" None]
  have "well_names_of example_locations [] [''Train'', ''Test''] None =
           Inr (map WELL (filter (\<lambda>r. Dataset r \<in> set [''Train'', ''Test'']) (rows example_locations)))"
    by (rule conjunct1)
  then show ?thesis
    by (simp add: example_locations_def)
qed

text \<open>
  C3. A selection dictionary whose list of points is empty gives the same text and the
  same wells as no selection at all; when the required curves are columns of the table
  that is the whole curve- and partition-qualified list, not the empty list.
\<close>

theorem empty_selection_is_no_selection:
  fixes locations_df :: "'z loc_row_scheme frame"
  assumes "points selected_item = []"
  shows "update_output locations_df curves datasets (Some selected_item) =
           update_output locations_df curves datasets None
       \<and> well_names_of locations_df curves datasets (Some selected_item) =
           well_names_of locations_df curves datasets None
       \<and> (set curves \<subseteq> set (columns locations_df) \<longrightarrow>
            well_names_of locations_df curves datasets (Some selected_item) =
              Inr (map WELL (filter (\<lambda>r. (\<forall>c\<in>set curves. flag r c) \<and> Dataset r \<in> set datasets)
                     (rows locations_df))))"
proof -
  have l: "lasso_wells_of (Some selected_item) = lasso_wells_of None"
    using assms by (simp add: lasso_wells_of_def)
  have d: "update_output_dff locations_df curves datasets (Some selected_item) =
           update_output_dff locations_df curves datasets None"
    by (simp add: update_output_dff_def l)
  have "set curves \<subseteq> set (columns locations_df) \<Longrightarrow>
            well_names_of locations_df curves datasets (Some selected_item) =
              Inr (map WELL (filter (\<lambda>r. (\<forall>c\<in>set curves. flag r c) \<and> Dataset r \<in> set datasets)
                     (rows locations_df)))"
    using well_names_of_eq [OF _ lasso_wells_of_empty [OF assms], of curves locations_df datasets]
    by simp
  then show ?thesis
    by (simp add: update_output_def well_names_of_def d)
qed

theorem empty_selection_is_no_selection_witness:
  "points \<lparr>points = []\<rparr> = []
   \<and> update_output example_locations [''GR''] [''Train'', ''Test''] (Some \<lparr>points = []\<rparr>) =
         update_output example_locations [''GR''] [''Train'', ''Test''] None
   \<and> well_names_of example_locations [''GR''] [''Train'', ''Test''] (Some \<lparr>points = []\<rparr>) =
         well_names_of example_locations [''GR''] [''Train'', ''Test''] None
   \<and> well_names_of example_locations [''GR''] [''Train'', ''Test''] (Some \<lparr>points = []\<rparr>) =
         Inr [''A'', ''B'']"
proof -
  have h: "points \<lparr>points = []\<rparr> = []" by simp
  note c = empty_selection_is_no_selection [OF h, of example_locations "[''GR'']" "[''Train'', ''Test'']"]
  have c1: "update_output example_locations [''GR''] [''Train'', ''Test''] (Some \<lparr>points = []\<rparr>) =
         update_output example_locations [''GR''] [''Train'', ''Test''] None"
    by (rule conjunct1 [OF c])
  have c2: "well_names_of example_locations [''GR''] [''Train'', ''Test''] (Some \<lparr>points = []\<rparr>) =
         well_names_of example_locations [''GR''] [''Train'', ''Test''] None"
    by (rule conjunct1 [OF conjunct2 [OF c]])
  have "well_names_of example_locations [''GR''] [''Train'', ''Test''] (Some \<lparr>points = []\<rparr>) =
          Inr (map WELL (filter (\<lambda>r. (\<forall>c\<in>set [''GR'']. flag r c) \<and> Dataset r \<in> set [''Train'', ''Test''])
                 (rows example_locations)))"
    by (rule mp [OF conjunct2 [OF conjunct2 [OF c]] example_columns(2)])
  then have c3: "well_names_of example_locations [''GR''] [''Train'', ''Test''] (Some \<lparr>points = []\<rparr>) =
         Inr [''A'', ''B'']"
    by (simp add: example_locations_def)
  show ?thesis
    by (rule conjI [OF h conjI [OF c1 conjI [OF c2 c3]]])
qed



text \<open>
  C5. With an empty partition filter no well matches, and the callback is to return the
  text for zero wells without an error. It does so when nothing is selected on the map.
  But for an empty result \<open>update_figure\<close> draws a single placeholder marker from literal
  coordinates, with no hover data, so the point that a selection of it reports has no
  \<open>customdata\<close> entry. The check of the selected data in \<open>update_output\<close> looks only at
  the dictionary and its list of points, and \<open>p['customdata'][0]\<close> then raises
  \<open>KeyError\<close> where the text for zero wells was due.
\<close>

theorem empty_partition_filter_placeholder_raises:
  "update_output example_locations [''GR''] [] (Some \<lparr>points = [\<lparr>customdata = None\<rparr>]\<rparr>)
     = Inl KeyError
   \<and> update_output example_locations [''GR''] [] None =
       Inr ([newline] @ ''You have selected 0 wells.'' @ [newline, newline]
            @ ''selected_wells = []'')"
proof (rule conjI)
  show "update_output example_locations [''GR''] [] (Some \<lparr>points = [\<lparr>customdata = None\<rparr>]\<rparr>)
     = Inl KeyError"
    by (rule unreadable_point_raises)
  show "update_output example_locations [''GR''] [] None =
       Inr ([newline] @ ''You have selected 0 wells.'' @ [newline, newline]
            @ ''selected_wells = []'')"
    using empty_partition_filter_readable_selection [OF example_columns(2) lasso_wells_of_None]
    by (rule conjunct2)
qed

text \<open>
  C6. The returned text is a line break, the line \<open>You have selected n wells.\<close>, an empty
  line, and the line \<open>selected_wells = [...]\<close>. Between the brackets stand the well names
  in table order, each in single quotes, every name after the first preceded by a comma and
  a space. \<open>n\<close> is the number of selected wells in decimal: digits only, at least one,
  no leading zero, and of that value. For the two-well table with \<open>GR\<close> and \<open>RHOB\<close>
  required it is the text for the single well \<open>B\<close>; for the table of twelve wells it
  reports 12 and lists the twelve names.
\<close>

theorem rendered_text_format:
  fixes locations_df :: "'z loc_row_scheme frame"
  assumes "well_names_of locations_df curves datasets selected_items = Inr names"
  shows "update_output locations_df curves datasets selected_items =
           Inr ([newline] @ ''You have selected '' @ str_nat (length names) @ '' wells.''
                @ [newline] @ [newline]
                @ ''selected_wells = [''
                @ (case names of
                     [] \<Rightarrow> []
                   | w # ws \<Rightarrow> [quote] @ w @ [quote]
                              @ concat (map (\<lambda>v. '', '' @ [quote] @ v @ [quote]) ws))
                @ '']'')
       \<and> str_nat (length names) \<noteq> []
       \<and> (\<forall>c\<in>set (str_nat (length names)). is_digit c)
       \<and> foldl (\<lambda>a c. 10 * a + digit_val c) 0 (str_nat (length names)) = length names
       \<and> (names \<noteq> [] \<longrightarrow> hd (str_nat (length names)) \<noteq> CHR ''0'')"
proof -
  from assms obtain dff where
    d: "update_output_dff locations_df curves datasets selected_items = Inr dff"
    and w: "names = map WELL (rows dff)"
    by (cases "update_output_dff locations_df curves datasets selected_items")
       (auto simp: well_names_of_def)
  have n: "length (rows dff) = length names"
    by (simp add: w)
  have q: "map format_quoted (map WELL (rows dff)) = map (\<lambda>w. [quote] @ w @ [quote]) names"
    by (simp add: w format_quoted_def)
  have j: "join '', '' (map (\<lambda>w. [quote] @ w @ [quote]) names) =
             (case names of
                [] \<Rightarrow> []
              | w # ws \<Rightarrow> [quote] @ w @ [quote]
                         @ concat (map (\<lambda>v. '', '' @ [quote] @ v @ [quote]) ws))"
    by (cases names) (simp_all add: join_concat comp_def)
  have t: "update_output locations_df curves datasets selected_items =
           Inr ([newline] @ ''You have selected '' @ str_nat (length names) @ '' wells.''
                @ [newline] @ [newline]
                @ ''selected_wells = [''
                @ (case names of
                     [] \<Rightarrow> []
                   | w # ws \<Rightarrow> [quote] @ w @ [quote]
                              @ concat (map (\<lambda>v. '', '' @ [quote] @ v @ [quote]) ws))
                @ '']'')"
    unfolding update_output_def d and_then_Inr Let_def n q j by simp
  have z: "names \<noteq> [] \<longrightarrow> hd (str_nat (length names)) \<noteq> CHR ''0''"
    by (simp add: str_nat_no_leading_zero)
  show ?thesis
    by (intro conjI t str_nat_nonempty str_nat_digits str_nat_value z)
qed

theorem rendered_text_format_witness:
  "well_names_of example_locations [''GR'', ''RHOB''] [''Train'', ''Test''] None = Inr [''B'']
   \<and> well_names_of twelve_wells [''GR''] [''Train'', ''Test''] None =
       Inr [''15/9-13'', ''15/9-15'', ''15/9-17'', ''16/1-2'', ''16/1-6 A'', ''16/10-1'',
            ''16/10-2'', ''16/10-3'', ''16/10-5'', ''16/11-1 ST3'', ''16/2-11 A'', ''16/2-16'']
   \<and> update_output example_locations [''GR'', ''RHOB''] [''Train'', ''Test''] None =
       Inr ([newline] @ ''You have selected 1 wells.'' @ [newline] @ [newline]
            @ ''selected_wells = ['B']'')
   \<and> update_output twelve_wells [''GR''] [''Train'', ''Test''] None =
       Inr ([newline] @ ''You have selected 12 wells.'' @ [newline] @ [newline]
            @ ''selected_wells = ['15/9-13', '15/9-15', '15/9-17', '16/1-2', '16/1-6 A', '16/10-1', '16/10-2', '16/10-3', '16/10-5', '16/11-1 ST3', '16/2-11 A', '16/2-16']'')"
proof -
  have h1: "well_names_of example_locations [''GR'', ''RHOB''] [''Train'', ''Test''] None = Inr [''B'']"
    by (rule example_names)
  have h2: "well_names_of twelve_wells [''GR''] [''Train'', ''Test''] None =
       Inr [''15/9-13'', ''15/9-15'', ''15/9-17'', ''16/1-2'', ''16/1-6 A'', ''16/10-1'',
            ''16/10-2'', ''16/10-3'', ''16/10-5'', ''16/11-1 ST3'', ''16/2-11 A'', ''16/2-16'']"
    by (rule twelve_names)
  have l: "length [''15/9-13'', ''15/9-15'', ''15/9-17'', ''16/1-2'', ''16/1-6 A'', ''16/10-1'',
            ''16/10-2'', ''16/10-3'', ''16/10-5'', ''16/11-1 ST3'', ''16/2-11 A'', ''16/2-16''] = 12"
    by simp
  from conjunct1 [OF rendered_text_format [OF h1]]
  have c1: "update_output example_locations [''GR'', ''RHOB''] [''Train'', ''Test''] None =
       Inr ([newline] @ ''You have selected 1 wells.'' @ [newline] @ [newline]
            @ ''selected_wells = ['B']'')"
    by (simp add: str_nat_small quote_def)
  from conjunct1 [OF rendered_text_format [OF h2]]
  have c2: "update_output twelve_wells [''GR''] [''Train'', ''Test''] None =
       Inr ([newline] @ ''You have selected 12 wells.'' @ [newline] @ [newline]
            @ ''selected_wells = ['15/9-13', '15/9-15', '15/9-17', '16/1-2', '16/1-6 A', '16/10-1', '16/10-2', '16/10-3', '16/10-5', '16/11-1 ST3', '16/2-11 A', '16/2-16']'')"
    unfolding l by (simp add: str_nat_twelve quote_def)
  show ?thesis
    by (rule conjI [OF h1 conjI [OF h2 conjI [OF c1 c2]]])
qed

text \<open>
  C7. Requiring more curves and allowing fewer partitions never selects more wells: the new
  list is a subsequence of the old one, so it is not longer.
\<close>

theorem selection_is_monotone:
  fixes locations_df :: "'z loc_row_scheme frame"
  assumes "set curves \<subseteq> set curves'"
    and "set curves' \<subseteq> set (columns locations_df)"
    and "set datasets' \<subseteq> set datasets"
    and "lasso_wells_of selected_items = Inr lasso_wells"
  shows "\<exists>names names'.
           well_names_of locations_df curves datasets selected_items = Inr names
         \<and> well_names_of locations_df curves' datasets' selected_items = Inr names'
         \<and> subseq names' names \<and> length names' \<le> length names"
proof -
  let ?Q = "filter (\<lambda>r. (\<forall>c\<in>set curves. flag r c) \<and> Dataset r \<in> set datasets) (rows locations_df)"
  let ?Q' = "filter (\<lambda>r. (\<forall>c\<in>set curves'. flag r c) \<and> Dataset r \<in> set datasets') (rows locations_df)"
  let ?sel = "\<lambda>ns. case lasso_wells of None \<Rightarrow> ns | Some ws \<Rightarrow> filter (\<lambda>w. w \<in> set ws) ns"
  from assms(1,2) have c: "set curves \<subseteq> set (columns locations_df)" by blast
  have n: "well_names_of locations_df curves datasets selected_items = Inr (?sel (map WELL ?Q))"
    using well_names_of_eq [OF c assms(4), of datasets] by (simp split: option.splits)
  have n': "well_names_of locations_df curves' datasets' selected_items = Inr (?sel (map WELL ?Q'))"
    using well_names_of_eq [OF assms(2,4), of datasets'] by (simp split: option.splits)
  have "subseq ?Q' ?Q"
    using assms(1,3) by (intro subseq_filter_mono) auto
  then have m: "subseq (map WELL ?Q') (map WELL ?Q)"
    by (rule subseq_map)
  have s: "subseq (?sel (map WELL ?Q')) (?sel (map WELL ?Q))"
  proof (cases lasso_wells)
    case None
    then show ?thesis using m by simp
  next
    case (Some ws)
    then show ?thesis using subseq_filter [OF m] by simp
  qed
  then have "length (?sel (map WELL ?Q')) \<le> length (?sel (map WELL ?Q))"
    by (rule list_emb_length)
  with n n' s show ?thesis by blast
qed

theorem selection_is_monotone_witness:
  "set [''GR''] \<subseteq> set [''GR'', ''RHOB'']
   \<and> set [''GR'', ''RHOB''] \<subseteq> set (columns example_locations)
   \<and> set [''Test''] \<subseteq> set [''Train'', ''Test'']
   \<and> lasso_wells_of None = Inr None
   \<and> (\<exists>names names'.
           well_names_of example_locations [''GR''] [''Train'', ''Test''] None = Inr names
         \<and> well_names_of example_locations [''GR'', ''RHOB''] [''Test''] None = Inr names'
         \<and> subseq names' names \<and> length names' \<le> length names)"
proof -
  have h1: "set [''GR''] \<subseteq> set [''GR'', ''RHOB'']" by simp
  have h2: "set [''GR'', ''RHOB''] \<subseteq> set (columns example_locations)"
    by (simp add: example_locations_def)
  have h3: "set [''Test''] \<subseteq> set [''Train'', ''Test'']" by simp
  have h4: "lasso_wells_of None = Inr None"
    by (simp add: lasso_wells_of_def)
  show ?thesis
    by (rule conjI [OF h1 conjI [OF h2 conjI [OF h3 conjI [OF h4
          selection_is_monotone [OF h1 h2 h3 h4]]]]])
qed

text \<open>
  C8. The returned names are the \<open>WELL\<close> column of the rows of the table that satisfy the
  criteria, in the order of the table: a subsequence of the column, never re-sorted.
\<close>

theorem selection_keeps_table_order:
  fixes locations_df :: "'z loc_row_scheme frame"
  assumes "well_names_of locations_df curves datasets selected_items = Inr names"
  shows "subseq names (map WELL (rows locations_df))
       \<and> (\<exists>lasso_wells. lasso_wells_of selected_items = Inr lasso_wells
            \<and> names = map WELL (filter (\<lambda>r. (\<forall>c\<in>set curves. flag r c) \<and> Dataset r \<in> set datasets
                         \<and> (case lasso_wells of None \<Rightarrow> True | Some ws \<Rightarrow> WELL r \<in> set ws))
                       (rows locations_df)))"
proof -
  from well_names_of_Inr_D [OF assms]
  obtain lw where c: "set curves \<subseteq> set (columns locations_df)"
    and l: "lasso_wells_of selected_items = Inr lw"
    by blast
  have e: "names = map WELL (filter (\<lambda>r. (\<forall>c\<in>set curves. flag r c) \<and> Dataset r \<in> set datasets
                         \<and> (case lw of None \<Rightarrow> True | Some ws \<Rightarrow> WELL r \<in> set ws))
                       (rows locations_df))"
    using well_names_of_eq [OF c l, of datasets] assms
    by (cases lw) (simp_all add: filter_map comp_def conj_commute conj_left_commute)
  have "subseq names (map WELL (rows locations_df))"
    unfolding e by (intro subseq_map subseq_filter_left)
  with e l show ?thesis by blast
qed

theorem selection_keeps_table_order_witness:
  "well_names_of example_locations [''GR''] [''Train'', ''Test''] None = Inr [''A'', ''B'']
   \<and> (subseq [''A'', ''B''] (map WELL (rows example_locations))
       \<and> (\<exists>lasso_wells. lasso_wells_of None = Inr lasso_wells
            \<and> [''A'', ''B''] = map WELL (filter (\<lambda>r. (\<forall>c\<in>set [''GR'']. flag r c)
                         \<and> Dataset r \<in> set [''Train'', ''Test'']
                         \<and> (case lasso_wells of None \<Rightarrow> True | Some ws \<Rightarrow> WELL r \<in> set ws))
                       (rows example_locations))))"
proof -
  have h: "well_names_of example_locations [''GR''] [''Train'', ''Test''] None = Inr [''A'', ''B'']"
    by (rule example_names)
  show ?thesis
    by (rule conjI [OF h selection_keeps_table_order [OF h]])
qed

text \<open>
  C9. The number read from the first line of the returned text is the number of names in
  the list of the last line: both come from the same filtered frame. When no well name
  contains a quote character or a line break, the last line holds exactly that many quoted
  items.
\<close>

theorem reported_count_is_list_length:
  fixes locations_df :: "'z loc_row_scheme frame"
  assumes "update_output locations_df curves datasets selected_items = Inr text"
  shows "\<exists>names. well_names_of locations_df curves datasets selected_items = Inr names
           \<and> text = [newline] @ ''You have selected '' @ str_nat (length names) @ '' wells.''
                @ [newline] @ [newline]
                @ ''selected_wells = ['' @ join '', '' (map (\<lambda>w. [quote] @ w @ [quote]) names)
                @ '']''
           \<and> reported_count text = length names
           \<and> ((\<forall>w\<in>set names. quote \<notin> set w \<and> newline \<notin> set w) \<longrightarrow>
                 quoted_count (last_line text) = reported_count text)"
proof -
  from assms obtain names where
    n: "well_names_of locations_df curves datasets selected_items = Inr names"
    by (cases "well_names_of locations_df curves datasets selected_items")
       (simp_all add: update_output_text)
  let ?list = "''selected_wells = ['' @ join '', '' (map (\<lambda>w. [quote] @ w @ [quote]) names) @ '']''"
  let ?head = "[newline] @ ''You have selected '' @ str_nat (length names) @ '' wells.'' @ [newline]"
  have t: "text = ?head @ [newline] @ ?list"
    using assms by (simp add: update_output_text n)
  have r: "reported_count text = length names"
    unfolding t using reported_count_header [of "length names" "[newline] @ [newline] @ ?list"]
    by simp
  have q: "quoted_count (last_line text) = length names"
    if "\<forall>w\<in>set names. quote \<notin> set w \<and> newline \<notin> set w"
  proof -
    from that have "newline \<notin> set (join '', '' (map (\<lambda>w. [quote] @ w @ [quote]) names))"
      by (intro newline_join) blast
    then have "newline \<notin> set ?list"
      by (simp add: newline_def)
    then have "last_line text = ?list"
      unfolding t by (rule last_line_append)
    moreover have "count_list ?list quote = 2 * length names"
      using count_quote_join [of names] that by (simp add: quote_def)
    ultimately show ?thesis
      by (simp add: quoted_count_def)
  qed
  from n t r q show ?thesis by simp
qed

theorem reported_count_is_list_length_witness:
  "update_output example_locations [''GR'', ''RHOB''] [''Train'', ''Test''] None =
     Inr ([newline] @ ''You have selected 1 wells.'' @ [newline] @ [newline]
          @ ''selected_wells = ['B']'')
   \<and> reported_count ([newline] @ ''You have selected 1 wells.'' @ [newline] @ [newline]
          @ ''selected_wells = ['B']'') = 1
   \<and> quoted_count (last_line ([newline] @ ''You have selected 1 wells.'' @ [newline] @ [newline]
          @ ''selected_wells = ['B']'')) = 1"
proof -
  let ?text = "[newline] @ ''You have selected 1 wells.'' @ [newline] @ [newline]
          @ ''selected_wells = ['B']''"
  have h: "update_output example_locations [''GR'', ''RHOB''] [''Train'', ''Test''] None = Inr ?text"
    by (simp add: update_output_text example_names str_nat_small quote_def)
  from reported_count_is_list_length [OF h] obtain names where
    n: "well_names_of example_locations [''GR'', ''RHOB''] [''Train'', ''Test''] None = Inr names"
    and r: "reported_count ?text = length names"
    and q: "(\<forall>w\<in>set names. quote \<notin> set w \<and> newline \<notin> set w) \<longrightarrow>
                 quoted_count (last_line ?text) = reported_count ?text"
    by blast
  from n have names: "names = [''B'']"
    by (simp add: example_names)
  have c1: "reported_count ?text = 1"
    using r by (simp add: names)
  have c2: "quoted_count (last_line ?text) = 1"
    using q c1 by (simp add: names quote_def newline_def)
  show ?thesis
    by (rule conjI [OF h conjI [OF c1 c2]])
qed

text \<open>
  C10. Two non-empty map selections that name the same set of wells, in any order and with
  any repetition, give the same list of wells and the same text.
\<close>

theorem selection_depends_on_identifier_set:
  fixes locations_df :: "'z loc_row_scheme frame"
  assumes "point_wells (points item) = Inr ws"
    and "point_wells (points item') = Inr ws'"
    and "set ws = set ws'"
    and "ws \<noteq> []"
  shows "well_names_of locations_df curves datasets (Some item) =
           well_names_of locations_df curves datasets (Some item')
       \<and> update_output locations_df curves datasets (Some item) =
           update_output locations_df curves datasets (Some item')"
proof -
  from assms(3,4) have ne': "ws' \<noteq> []" by auto
  have l: "lasso_wells_of (Some item) = Inr (Some ws)"
    by (rule lasso_wells_of_points [OF assms(1,4)])
  have l': "lasso_wells_of (Some item') = Inr (Some ws')"
    by (rule lasso_wells_of_points [OF assms(2) ne'])
  have "isin s ws = isin s ws'" for s
    by (simp add: isin_def assms(3))
  then have "update_output_dff locations_df curves datasets (Some item) =
        update_output_dff locations_df curves datasets (Some item')"
    using assms(4) ne' by (simp add: update_output_dff_def l l' Let_def)
  then show ?thesis
    by (simp add: well_names_of_def update_output_def)
qed

theorem selection_depends_on_identifier_set_witness:
  "point_wells (points \<lparr>points = [\<lparr>customdata = Some [''B'']\<rparr>, \<lparr>customdata = Some [''A'']\<rparr>,
                                 \<lparr>customdata = Some [''B'']\<rparr>]\<rparr>) = Inr [''B'', ''A'', ''B'']
   \<and> point_wells (points \<lparr>points = [\<lparr>customdata = Some [''A'']\<rparr>, \<lparr>customdata = Some [''B'']\<rparr>]\<rparr>)
       = Inr [''A'', ''B'']
   \<and> set [''B'', ''A'', ''B''] = set [''A'', ''B'']
   \<and> [''B'', ''A'', ''B''] \<noteq> []
   \<and> (well_names_of example_locations [''GR'', ''RHOB''] [''Train'', ''Test'']
          (Some \<lparr>points = [\<lparr>customdata = Some [''B'']\<rparr>, \<lparr>customdata = Some [''A'']\<rparr>,
                          \<lparr>customdata = Some [''B'']\<rparr>]\<rparr>) =
         well_names_of example_locations [''GR'', ''RHOB''] [''Train'', ''Test'']
          (Some \<lparr>points = [\<lparr>customdata = Some [''A'']\<rparr>, \<lparr>customdata = Some [''B'']\<rparr>]\<rparr>)
       \<and> update_output example_locations [''GR'', ''RHOB''] [''Train'', ''Test'']
          (Some \<lparr>points = [\<lparr>customdata = Some [''B'']\<rparr>, \<lparr>customdata = Some [''A'']\<rparr>,
                          \<lparr>customdata = Some [''B'']\<rparr>]\<rparr>) =
         update_output example_locations [''GR'', ''RHOB''] [''Train'', ''Test'']
          (Some \<lparr>points = [\<lparr>customdata = Some [''A'']\<rparr>, \<lparr>customdata = Some [''B'']\<rparr>]\<rparr>))"
proof -
  let ?item = "\<lparr>points = [\<lparr>customdata = Some [''B'']\<rparr>, \<lparr>customdata = Some [''A'']\<rparr>,
                                 \<lparr>customdata = Some [''B'']\<rparr>]\<rparr>"
  let ?item' = "\<lparr>points = [\<lparr>customdata = Some [''A'']\<rparr>, \<lparr>customdata = Some [''B'']\<rparr>]\<rparr>"
  have h1: "point_wells (points ?item) = Inr [''B'', ''A'', ''B'']"
    by (simp add: point_well_def)
  have h2: "point_wells (points ?item') = Inr [''A'', ''B'']"
    by (simp add: point_well_def)
  have h3: "set [''B'', ''A'', ''B''] = set [''A'', ''B'']" by auto
  have h4: "[''B'', ''A'', ''B''] \<noteq> []" by simp
  show ?thesis
    by (rule conjI [OF h1 conjI [OF h2 conjI [OF h3 conjI [OF h4
          selection_depends_on_identifier_set [OF h1 h2 h3 h4]]]]])
qed

end
